theory Spec2Isabelle
  imports Main "HOL-Library.Word" "HOL-Library.Signed_Division" "HOL-Library.Sublist"
begin

section \<open>Basic types\<close>

text \<open>Go's \<open>byte\<close>, and \<open>int\<close> on a 64-bit platform (two's complement, wrapping).\<close>

type_synonym byte = "8 word"
type_synonym go_int = "64 word"

text \<open>
  A Go slice whose capacity is observable (the code reslices it or writes through it):
  \<open>backing\<close> is the backing array from the slice's first element up to its capacity,
  \<open>slen\<close> is \<open>len\<close>. Where the code only reads the elements of a slice (\<open>append\<close>,
  a rendering), the slice is modelled by its contents, a \<open>byte list\<close>.
\<close>

record RawBytes =
  backing :: "byte list"
  slen :: nat

definition cap :: "RawBytes \<Rightarrow> nat" where
  "cap b = length (backing b)"

text \<open>Every slice value satisfies \<open>len \<le> cap\<close>.\<close>

definition wf_slice :: "RawBytes \<Rightarrow> bool" where
  "wf_slice b \<longleftrightarrow> slen b \<le> cap b"

definition bytes :: "RawBytes \<Rightarrow> byte list" where
  "bytes b = take (slen b) (backing b)"

text \<open>
  Modelled from the spec: \<open>proto.SignType\<close> is generated code that is not part of the
  sources at hand. The spec names the two schemes \<open>none\<close> and \<open>ed25519\<close>; every other
  numeric tag is \<open>SignType_unknown\<close>.
\<close>

datatype SignType = SignType_none | SignType_ed25519 | SignType_unknown "16 word"

text \<open>Run-time panics and error returns of the modelled code, as values.
  \<open>BasicError msg t\<close> is \<open>common.NewBasicError(msg, nil, "type", t)\<close>;
  \<open>CryptoError\<close> stands for whatever the crypto package reports.\<close>

datatype error =
    DivideByZero
  | SliceBoundsOutOfRange
  | IndexOutOfRange
  | NilDereference
  | BasicError string SignType
  | CryptoError string

section \<open>Padding (package util)\<close>

text \<open>Go's \<open>%\<close> on \<open>int\<close>: the remainder of the division truncated towards zero;
  a zero divisor panics.\<close>

definition go_rem :: "go_int \<Rightarrow> go_int \<Rightarrow> error + go_int" where
  "go_rem x y = (if y = 0 then Inl DivideByZero
                 else Inr (word_of_int (sint x smod sint y)))"

definition CalcPadding :: "go_int \<Rightarrow> go_int \<Rightarrow> error + go_int" where
  "CalcPadding len blkSize =
     (case go_rem len blkSize of
        Inl e \<Rightarrow> Inl e
      | Inr spare \<Rightarrow> if spare \<noteq> 0 then Inr (blkSize - spare) else Inr 0)"

text \<open>The slice expression \<open>b[lo:hi]\<close>: on a slice the upper bound is checked against
  the capacity.\<close>

definition reslice :: "RawBytes \<Rightarrow> go_int \<Rightarrow> go_int \<Rightarrow> error + RawBytes" where
  "reslice b lo hi =
     (if 0 \<le> sint lo \<and> sint lo \<le> sint hi \<and> sint hi \<le> int (cap b)
      then Inr \<lparr>backing = drop (nat (sint lo)) (backing b),
                slen = nat (sint hi) - nat (sint lo)\<rparr>
      else Inl SliceBoundsOutOfRange)"

text \<open>The assignment \<open>b[i] = v\<close>: the index is checked against the length.\<close>

definition store :: "RawBytes \<Rightarrow> nat \<Rightarrow> byte \<Rightarrow> error + RawBytes" where
  "store b i v =
     (if i < slen b then Inr (b\<lparr>backing := (backing b)[i := v]\<rparr>)
      else Inl IndexOutOfRange)"

text \<open>The loop \<open>for i := range b[length:total] { b[i] = 0 }\<close>: \<open>i\<close> runs over the
  indices of the resliced value, and each step writes into \<open>b\<close> itself.\<close>

fun fill_loop :: "RawBytes \<Rightarrow> nat list \<Rightarrow> error + RawBytes" where
  "fill_loop b [] = Inr b"
| "fill_loop b (i # is) =
     (case store b i 0 of Inl e \<Rightarrow> Inl e | Inr b' \<Rightarrow> fill_loop b' is)"

definition FillPadding :: "RawBytes \<Rightarrow> go_int \<Rightarrow> go_int \<Rightarrow> error + (RawBytes \<times> go_int)" where
  "FillPadding b len blkSize =
     (case CalcPadding len blkSize of
        Inl e \<Rightarrow> Inl e
      | Inr padding \<Rightarrow>
          let total = len + padding in
          (case reslice b len total of
             Inl e \<Rightarrow> Inl e
           | Inr s \<Rightarrow>
               (case fill_loop b [0 ..< slen s] of
                  Inl e \<Rightarrow> Inl e
                | Inr b' \<Rightarrow> Inr (b', total))))"

section \<open>SCIOND message types (package sciond)\<close>

text \<open>Decimal rendering of an unsigned number, as \<open>fmt\<close> does for \<open>%d\<close> and for \<open>%v\<close>
  on an unsigned integer.\<close>

fun fmt_d :: "nat \<Rightarrow> string" where
  "fmt_d n = (if n < 10 then [''0123456789'' ! n]
              else fmt_d (n div 10) @ [''0123456789'' ! (n mod 10)])"

declare fmt_d.simps [simp del]

type_synonym PathErrorCode = "16 word"

definition ErrorOk :: PathErrorCode where "ErrorOk = 0"
definition ErrorNoPaths :: PathErrorCode where "ErrorNoPaths = 1"
definition ErrorPSTimeout :: PathErrorCode where "ErrorPSTimeout = 2"
definition ErrorInternal :: PathErrorCode where "ErrorInternal = 3"

definition PathErrorCode_String :: "PathErrorCode \<Rightarrow> string" where
  "PathErrorCode_String c =
     (if c = ErrorOk then ''OK''
      else if c = ErrorNoPaths then ''No paths available''
      else if c = ErrorPSTimeout then ''SCIOND timed out while requesting paths''
      else if c = ErrorInternal then ''SCIOND experienced an internal error''
      else ''Unknown error ('' @ fmt_d (unat c) @ '')'')"

type_synonym RevResult = "16 word"

definition RevValid :: RevResult where "RevValid = 0"
definition RevStale :: RevResult where "RevStale = 1"
definition RevInvalid :: RevResult where "RevInvalid = 2"
definition RevUnknown :: RevResult where "RevUnknown = 3"

definition RevResult_String :: "RevResult \<Rightarrow> string" where
  "RevResult_String c =
     (if c = RevValid then ''RevValid''
      else if c = RevStale then ''RevStale''
      else if c = RevInvalid then ''RevInvalid''
      else if c = RevUnknown then ''RevUnknown''
      else ''Unknown revocation result ('' @ fmt_d (unat c) @ '')'')"

type_synonym ServiceType = "16 word"

definition SvcBS :: ServiceType where "SvcBS = 0"
definition SvcPS :: ServiceType where "SvcPS = 1"
definition SvcCS :: ServiceType where "SvcCS = 2"
definition SvcBR :: ServiceType where "SvcBR = 3"
definition SvcSB :: ServiceType where "SvcSB = 4"

definition ServiceType_String :: "ServiceType \<Rightarrow> string" where
  "ServiceType_String st =
     (if st = SvcBS then ''BS''
      else if st = SvcPS then ''PS''
      else if st = SvcCS then ''CS''
      else if st = SvcBR then ''BR''
      else if st = SvcSB then ''SB''
      else ''??'')"

record Addrs =
  Ipv4 :: "byte list"
  Ipv6 :: "byte list"

record HostInfo =
  Port :: "16 word"
  Addrs :: Addrs

text \<open>
  Modelled from the spec: package \<open>addr\<close> is not part of the sources at hand. A
  \<open>HostAddr\<close> is an interface value, observed here through its methods \<open>Type()\<close> and
  \<open>IP()\<close> only; the spec distinguishes the IPv4 family, the IPv6 family and addresses
  that are neither.
\<close>

datatype HostAddrType = HostTypeIPv4 | HostTypeIPv6 | HostTypeOther

record HostAddr =
  HostAddr_Type :: HostAddrType
  HostAddr_IP :: "byte list"

text \<open>The argument is an interface: calling a method on the nil interface panics.
  The zero value of a \<open>[]byte\<close> field is the empty slice.\<close>

definition HostInfoFromHostAddr :: "HostAddr option \<Rightarrow> 16 word \<Rightarrow> error + HostInfo" where
  "HostInfoFromHostAddr host port =
     (case host of
        None \<Rightarrow> Inl NilDereference
      | Some a \<Rightarrow>
          let h = \<lparr>Port = port, Addrs = \<lparr>Ipv4 = [], Ipv6 = []\<rparr>\<rparr> in
          if HostAddr_Type a = HostTypeIPv4
          then Inr (h\<lparr>Addrs := (Addrs h)\<lparr>Ipv4 := HostAddr_IP a\<rparr>\<rparr>)
          else Inr (h\<lparr>Addrs := (Addrs h)\<lparr>Ipv6 := HostAddr_IP a\<rparr>\<rparr>))"

record IFInfoReplyEntry =
  IfID :: "64 word"
  HostInfo :: HostInfo

record IFInfoReply =
  RawEntries :: "IFInfoReplyEntry list"

text \<open>The map is built by assigning \<open>m[entry.IfID] = entry.HostInfo\<close> for each entry
  in order.\<close>

definition Entries :: "IFInfoReply \<Rightarrow> (64 word \<rightharpoonup> HostInfo)" where
  "Entries reply =
     foldl (\<lambda>m entry. m(IfID entry \<mapsto> HostInfo entry)) Map.empty (RawEntries reply)"

section \<open>Signed envelope (package proto)\<close>

record SignS =
  Timestamp :: "64 word"
  Type :: SignType
  Src :: "byte list"
  Signature :: "byte list"

text \<open>
  Package \<open>crypto\<close> is not part of the sources at hand: \<open>crypto.Sign\<close> and
  \<open>crypto.Verify\<close> are parameters of the model. A Go function returning
  \<open>(RawBytes, error)\<close> returns both values; \<open>None\<close> is the nil error.
\<close>

datatype crypto_algo = Ed25519

type_synonym crypto_sign = "byte list \<Rightarrow> byte list \<Rightarrow> crypto_algo \<Rightarrow> byte list \<times> error option"
type_synonym crypto_verify = "byte list \<Rightarrow> byte list \<Rightarrow> byte list \<Rightarrow> crypto_algo \<Rightarrow> error option"

text \<open>The methods have a pointer receiver; the model passes the receiver's state in
  and returns it with the result, so that every write to a field shows.\<close>

definition SignS_Sign :: "crypto_sign \<Rightarrow> SignS \<Rightarrow> byte list \<Rightarrow> byte list
    \<Rightarrow> (byte list \<times> error option) \<times> SignS" where
  "SignS_Sign csign s key message =
     (case Type s of
        SignType_none \<Rightarrow> (([], None), s)
      | SignType_ed25519 \<Rightarrow> (csign message key Ed25519, s)
      | SignType_unknown v \<Rightarrow>
          (([], Some (BasicError ''SignS.Sign: Unsupported SignType'' (Type s))), s))"

text \<open>\<open>now\<close> is the value of \<open>time.Now().Unix()\<close>, converted to \<open>uint64\<close>.\<close>

definition SignS_SignAndSet :: "crypto_sign \<Rightarrow> 64 word \<Rightarrow> SignS \<Rightarrow> byte list \<Rightarrow> byte list
    \<Rightarrow> error option \<times> SignS" where
  "SignS_SignAndSet csign now s key message =
     (let s1 = s\<lparr>Timestamp := now\<rparr>;
          (res, s2) = SignS_Sign csign s1 key message
      in (snd res, s2\<lparr>Signature := fst res\<rparr>))"

definition SignS_Verify :: "crypto_verify \<Rightarrow> SignS \<Rightarrow> byte list \<Rightarrow> byte list
    \<Rightarrow> error option \<times> SignS" where
  "SignS_Verify cverify s key message =
     (case Type s of
        SignType_none \<Rightarrow> (None, s)
      | SignType_ed25519 \<Rightarrow> (cverify message (Signature s) key Ed25519, s)
      | SignType_unknown v \<Rightarrow>
          (Some (BasicError ''SignS.Verify: Unsupported SignType'' (Type s)), s))"

text \<open>
  Modelled from the spec: \<open>common.Order\<close> is declared in package \<open>common\<close>, which is not
  part of the sources at hand; the spec has the timestamp encoded big-endian, so
  \<open>common.Order.PutUint64\<close> is \<open>binary.BigEndian.PutUint64\<close> of Go's standard library: a
  bounds check on \<open>b[7]\<close>, then eight byte stores, most significant byte first.
\<close>

definition PutUint64 :: "byte list \<Rightarrow> 64 word \<Rightarrow> error + byte list" where
  "PutUint64 b v =
     (if length b \<le> 7 then Inl IndexOutOfRange
      else Inr (b[0 := ucast (drop_bit 56 v), 1 := ucast (drop_bit 48 v),
                  2 := ucast (drop_bit 40 v), 3 := ucast (drop_bit 32 v),
                  4 := ucast (drop_bit 24 v), 5 := ucast (drop_bit 16 v),
                  6 := ucast (drop_bit 8 v), 7 := ucast v]))"

text \<open>The conversion \<open>common.RawBytes(str)\<close> of a string to its bytes.\<close>

definition bytes_of_string :: "string \<Rightarrow> byte list" where
  "bytes_of_string str = map of_char str"

text \<open>The 8-byte big-endian encoding in the spec's words: the eight base-256 digits of
  the value, the most significant one first.\<close>

definition big_endian_64 :: "64 word \<Rightarrow> byte list" where
  "big_endian_64 v = map (\<lambda>i. of_nat (unat v div 256 ^ (7 - i) mod 256)) [0 ..< 8]"

text \<open>The number a byte sequence denotes when read big-endian.\<close>

definition be_value :: "byte list \<Rightarrow> nat" where
  "be_value bs = foldl (\<lambda>acc b. 256 * acc + unat b) 0 bs"

text \<open>\<open>SignS.Pack\<close>; \<open>tstring\<close> is \<open>SignType.String\<close>, generated code that is not part
  of the sources at hand. The result is the contents of the slice built by the appends.\<close>

definition SignS_Pack :: "(SignType \<Rightarrow> string) \<Rightarrow> SignS \<Rightarrow> error + byte list" where
  "SignS_Pack tstring s =
     (case PutUint64 (replicate 8 0) (Timestamp s) of
        Inl e \<Rightarrow> Inl e
      | Inr raw \<Rightarrow>
          Inr (((raw @ bytes_of_string (tstring (Type s))) @ Src s) @ Signature s))"

text \<open>\<open>Sign\<close> is a pointer field and may be nil.\<close>

record SignedBlobS =
  Blob :: RawBytes
  Sign :: "SignS option"

definition SignedBlobS_Pack :: "(SignType \<Rightarrow> string) \<Rightarrow> SignedBlobS \<Rightarrow> error + byte list" where
  "SignedBlobS_Pack tstring sbs =
     (let raw = [] @ bytes (Blob sbs) in
      case Sign sbs of
        None \<Rightarrow> Inl NilDereference
      | Some s \<Rightarrow>
          (case SignS_Pack tstring s of
             Inl e \<Rightarrow> Inl e
           | Inr p \<Rightarrow> Inr (raw @ p)))"

text \<open>\<open>SignedBlobS.String\<close>: the slice expression \<open>sbs.Blob[:20]\<close> is evaluated first and
  panics when 20 exceeds the capacity of the blob; \<open>fmt.Sprintf\<close> itself does not fail.
  The renderings of a \<open>RawBytes\<close> and of a \<open>*SignS\<close> under \<open>%s\<close> are parameters.\<close>

definition SignedBlobS_String :: "(byte list \<Rightarrow> string) \<Rightarrow> (SignS option \<Rightarrow> string)
    \<Rightarrow> SignedBlobS \<Rightarrow> error + string" where
  "SignedBlobS_String fmt_blob fmt_sign sbs =
     (case reslice (Blob sbs) 0 20 of
        Inl e \<Rightarrow> Inl e
      | Inr head \<Rightarrow>
          Inr (''Blob: '' @ fmt_blob (bytes head) @ '' Sign: '' @ fmt_sign (Sign sbs)))"

section \<open>Signed 64-bit arithmetic without overflow\<close>

lemma sint_word_of_int_small:
  "- (2 ^ 63) \<le> k \<Longrightarrow> k < 2 ^ 63 \<Longrightarrow> sint (word_of_int k :: go_int) = k"
  by (simp add: sint_sbintrunc' signed_take_bit_int_eq_self)

lemma sint_go_int_bounds: "- (2 ^ 63) \<le> sint (x :: go_int)" "sint (x :: go_int) < 2 ^ 63"
  using sint_ge [of x] sint_lt [of x] by simp_all

lemma smod_nonneg: "0 \<le> (a::int) \<Longrightarrow> 0 < b \<Longrightarrow> a smod b = a mod b"
  by (cases "a = 0") (simp_all add: signed_modulo_int_def)

lemma sint_sub_small:
  assumes "- (2 ^ 63) \<le> sint a - sint b" "sint a - sint b < 2 ^ 63"
  shows "sint (a - b :: go_int) = sint a - sint b"
  using assms by (simp add: sint_word_ariths signed_take_bit_int_eq_self)

lemma sint_add_small:
  assumes "- (2 ^ 63) \<le> sint a + sint b" "sint a + sint b < 2 ^ 63"
  shows "sint (a + b :: go_int) = sint a + sint b"
  using assms by (simp add: sint_word_ariths signed_take_bit_int_eq_self)

section \<open>The padding functions\<close>

lemma go_rem_nonneg:
  assumes "0 \<le> sint x" "0 < sint y"
  shows "\<exists>r. go_rem x y = Inr r \<and> sint r = sint x mod sint y"
proof -
  have y0: "y \<noteq> 0" using assms(2) by auto
  have r: "0 \<le> sint x mod sint y" "sint x mod sint y < sint y"
    using assms(2) by simp_all
  have "sint (word_of_int (sint x mod sint y) :: go_int) = sint x mod sint y"
    using r sint_go_int_bounds(2) [of y] by (intro sint_word_of_int_small) linarith+
  then show ?thesis
    using y0 assms by (simp add: go_rem_def smod_nonneg)
qed

lemma CalcPadding_sint:
  assumes "0 \<le> sint len" "0 < sint blkSize"
  shows "\<exists>p. CalcPadding len blkSize = Inr p \<and>
     sint p = (if sint len mod sint blkSize \<noteq> 0
               then sint blkSize - sint len mod sint blkSize else 0)"
proof -
  obtain r where r: "go_rem len blkSize = Inr r" "sint r = sint len mod sint blkSize"
    using go_rem_nonneg [OF assms] by blast
  have rb: "0 \<le> sint r" "sint r < sint blkSize"
    using assms(2) by (simp_all add: r(2))
  have r0: "r \<noteq> 0 \<longleftrightarrow> sint len mod sint blkSize \<noteq> 0"
    using r(2) by (metis signed_eq_0_iff)
  have "sint (blkSize - r) = sint blkSize - sint r"
    using rb sint_go_int_bounds [of blkSize] by (intro sint_sub_small) linarith+
  then show ?thesis
    using r r0 by (simp add: CalcPadding_def)
qed

text \<open>
  C2. For every length \<open>\<ge> 0\<close> and block size \<open>> 0\<close>, \<open>CalcPadding\<close> returns (without a
  panic) the block size minus the remainder of the length when that remainder is not zero,
  and 0 otherwise; the result lies in \<open>[0, blkSize)\<close>, the length plus the result is a
  multiple of the block size, and no smaller multiple of the block size is \<open>\<ge>\<close> the
  length. The values are read as the signed integers they denote.
\<close>

theorem CalcPadding_contract:
  assumes "0 \<le> sint len" and "0 < sint blkSize"
  shows "\<exists>p. CalcPadding len blkSize = Inr p \<and>
     sint p = (if sint len mod sint blkSize \<noteq> 0
               then sint blkSize - sint len mod sint blkSize else 0) \<and>
     0 \<le> sint p \<and> sint p < sint blkSize \<and>
     (sint len + sint p) mod sint blkSize = 0 \<and>
     (\<forall>m. sint len \<le> m \<and> m mod sint blkSize = 0 \<longrightarrow> sint len + sint p \<le> m)"
proof -
  let ?l = "sint len" and ?b = "sint blkSize"
  obtain p where p: "CalcPadding len blkSize = Inr p"
    "sint p = (if ?l mod ?b \<noteq> 0 then ?b - ?l mod ?b else 0)"
    using CalcPadding_sint [OF assms] by blast
  have rb: "0 \<le> ?l mod ?b" "?l mod ?b < ?b" using assms(2) by simp_all
  have range: "0 \<le> sint p" "sint p < ?b"
  proof -
    define r where "r = ?l mod ?b"
    have "0 \<le> r" "r < ?b" "sint p = (if r \<noteq> 0 then ?b - r else 0)"
      using rb p(2) by (simp_all add: r_def)
    then show "0 \<le> sint p" "sint p < ?b"
      using assms(2) by (auto split: if_splits)
  qed
  have mult: "(?l + sint p) mod ?b = 0"
  proof (cases "?l mod ?b = 0")
    case True then show ?thesis by (simp add: p(2))
  next
    case False
    have "(?l + (?b - ?l mod ?b)) mod ?b = (?l - ?l mod ?b + ?b) mod ?b"
      by (simp add: algebra_simps)
    also have "\<dots> = (?l - ?l mod ?b) mod ?b" by simp
    also have "\<dots> = 0" by (simp add: minus_mod_eq_mult_div)
    finally show ?thesis using False by (simp add: p(2))
  qed
  have least: "?l + sint p \<le> m" if m: "?l \<le> m" "m mod ?b = 0" for m
  proof (rule ccontr)
    assume "\<not> ?l + sint p \<le> m"
    then have lt: "m < ?l + sint p" by simp
    have d: "?b dvd (?l + sint p - m)"
      using mult m(2) by (simp add: mod_eq_dvd_iff dvd_diff mod_0_imp_dvd)
    have pos: "0 < ?l + sint p - m" using lt by simp
    have "?b \<le> ?l + sint p - m" using d pos by (rule zdvd_imp_le)
    then show False using m(1) range(2) by linarith
  qed
  show ?thesis
  proof (intro exI [of _ p] conjI allI impI)
    show "CalcPadding len blkSize = Inr p" by (fact p(1))
    show "sint p = (if ?l mod ?b \<noteq> 0 then ?b - ?l mod ?b else 0)" by (fact p(2))
    show "0 \<le> sint p" by (fact range(1))
    show "sint p < ?b" by (fact range(2))
    show "(?l + sint p) mod ?b = 0" by (fact mult)
    fix m assume "?l \<le> m \<and> m mod ?b = 0"
    then show "?l + sint p \<le> m" using least [of m] by simp
  qed
qed

theorem CalcPadding_contract_witness:
  "0 \<le> sint (5 :: go_int) \<and> 0 < sint (8 :: go_int) \<and> CalcPadding 5 8 = Inr 3"
  using CalcPadding_contract [of 5 8] by (auto simp: CalcPadding_def go_rem_def)

lemma CalcPadding_nonneg:
  assumes "0 \<le> sint len" "0 < sint blkSize"
  shows "\<exists>p. CalcPadding len blkSize = Inr p \<and> 0 \<le> sint p"
proof -
  define r where "r = sint len mod sint blkSize"
  have "r < sint blkSize" using assms(2) by (simp add: r_def)
  moreover obtain p where "CalcPadding len blkSize = Inr p"
      "sint p = (if r \<noteq> 0 then sint blkSize - r else 0)"
    using CalcPadding_sint [OF assms] by (auto simp: r_def)
  ultimately show ?thesis by (auto split: if_splits)
qed

text \<open>What the loop of \<open>FillPadding\<close> does when it runs to its end: the first
  \<open>padding\<close> positions of the buffer are zeroed, whatever \<open>length\<close> is.\<close>

lemma fill_loop_snoc:
  "fill_loop b (xs @ [i]) =
     (case fill_loop b xs of Inl e \<Rightarrow> Inl e | Inr b' \<Rightarrow> store b' i 0)"
  by (induction xs arbitrary: b) (simp_all split: sum.splits)

lemma zero_next:
  assumes "n < length xs"
  shows "(replicate n (0 :: byte) @ drop n xs)[n := 0] = replicate (Suc n) 0 @ drop (Suc n) xs"
proof -
  have "drop n xs = xs ! n # drop (Suc n) xs"
    using assms by (simp add: Cons_nth_drop_Suc)
  then have "(replicate n (0 :: byte) @ drop n xs)[n := 0]
      = replicate n 0 @ 0 # drop (Suc n) xs"
    by (simp add: list_update_append)
  then show ?thesis by (simp add: replicate_append_same)
qed

lemma fill_loop_prefix:
  assumes "wf_slice b" "n \<le> slen b"
  shows "fill_loop b [0 ..< n] = Inr (b\<lparr>backing := replicate n 0 @ drop n (backing b)\<rparr>)"
  using assms(2)
proof (induction n)
  case 0
  then show ?case by simp
next
  case (Suc n)
  then have ih: "fill_loop b [0 ..< n] = Inr (b\<lparr>backing := replicate n 0 @ drop n (backing b)\<rparr>)"
    by simp
  have "n < length (backing b)"
    using Suc.prems assms(1) by (simp add: wf_slice_def cap_def)
  then show ?case
    using Suc.prems by (simp add: fill_loop_snoc ih store_def zero_next)
qed

lemma FillPadding_zeroes_prefix:
  assumes wf: "wf_slice b" "int (cap b) < 2 ^ 63"
    and args: "0 \<le> sint len" "0 < sint blkSize"
    and pad: "CalcPadding len blkSize = Inr p"
    and room: "sint len + sint p \<le> int (cap b)" "nat (sint p) \<le> slen b"
  shows "FillPadding b len blkSize =
     Inr (b\<lparr>backing := replicate (nat (sint p)) 0 @ drop (nat (sint p)) (backing b)\<rparr>,
          len + p)"
proof -
  have p0: "0 \<le> sint p"
    using CalcPadding_nonneg [OF args] pad by simp
  have tot: "sint (len + p) = sint len + sint p"
    using args(1) p0 room(1) wf(2) by (intro sint_add_small) linarith+
  have "reslice b len (len + p) =
      Inr \<lparr>backing = drop (nat (sint len)) (backing b), slen = nat (sint p)\<rparr>"
    using args(1) p0 room(1) by (simp add: reslice_def tot nat_add_distrib)
  then show ?thesis
    using fill_loop_prefix [OF wf(1) room(2)] by (simp add: FillPadding_def pad)
qed

text \<open>
  C1. The code departs from the claim. On the eight-byte buffer \<open>1, \<dots>, 8\<close> (length and
  capacity 8) with length 5 and block size 8 the padding is 3 and the capacity suffices,
  so the claim asks for zeros at positions 5, 6, 7 and for positions 0 to 4 to be kept.
  \<open>FillPadding\<close> returns 8, but its loop index counts from 0 within \<open>b[length:total]\<close>
  and is used on \<open>b\<close>: positions 0, 1, 2 are zeroed and 5, 6, 7 keep their bytes.
\<close>

theorem FillPadding_fills_from_index_zero:
  "FillPadding \<lparr>backing = [1, 2, 3, 4, 5, 6, 7, 8], slen = 8\<rparr> 5 8
     = Inr (\<lparr>backing = [0, 0, 0, 4, 5, 6, 7, 8], slen = 8\<rparr>, 8)"
  by code_simp

section \<open>Host addresses and the interface map\<close>

text \<open>
  C3, as the code has it. \<open>HostInfoFromHostAddr\<close> has no error result and, given an
  address value, never fails: the port is stored; for an IPv4 address the address bytes
  go to the IPv4 slot and the IPv6 slot stays empty; for every other address family
  (IPv6 or not) the bytes of \<open>IP()\<close> go to the IPv6 slot and the IPv4 slot stays empty.
\<close>

theorem HostInfoFromHostAddr_slots:
  "HostInfoFromHostAddr (Some a) port =
     Inr \<lparr>Port = port,
          Addrs = (if HostAddr_Type a = HostTypeIPv4
                   then \<lparr>Ipv4 = HostAddr_IP a, Ipv6 = []\<rparr>
                   else \<lparr>Ipv4 = [], Ipv6 = HostAddr_IP a\<rparr>)\<rparr>"
  by (simp add: HostInfoFromHostAddr_def)

theorem HostInfoFromHostAddr_slots_witness:
  "HostInfoFromHostAddr
      (Some \<lparr>HostAddr_Type = HostTypeIPv4, HostAddr_IP = [192, 168, 0, 1]\<rparr>) 31000
     = Inr \<lparr>Port = 31000, Addrs = \<lparr>Ipv4 = [192, 168, 0, 1], Ipv6 = []\<rparr>\<rparr>"
  using HostInfoFromHostAddr_slots
    [of "\<lparr>HostAddr_Type = HostTypeIPv4, HostAddr_IP = [192, 168, 0, 1]\<rparr>" 31000]
  by simp

theorem HostInfoFromHostAddr_other_family_counterexample:
  "HostInfoFromHostAddr (Some \<lparr>HostAddr_Type = HostTypeOther, HostAddr_IP = [10, 0]\<rparr>) 80
     = Inr \<lparr>Port = 80, Addrs = \<lparr>Ipv4 = [], Ipv6 = [10, 0]\<rparr>\<rparr>"
  by (simp add: HostInfoFromHostAddr_def)

lemma foldl_assign_lookup:
  "foldl (\<lambda>m entry. m(IfID entry \<mapsto> HostInfo entry)) m0 xs k =
     (case find (\<lambda>e. IfID e = k) (rev xs) of
        None \<Rightarrow> m0 k
      | Some e \<Rightarrow> Some (HostInfo e))"
  by (induction xs rule: rev_induct) simp_all

lemma find_append_cases:
  "find P (xs @ ys) = (case find P xs of None \<Rightarrow> find P ys | Some x \<Rightarrow> Some x)"
  by (induction xs) simp_all

lemma Entries_lookup:
  "Entries reply k =
     map_option HostInfo (find (\<lambda>e. IfID e = k) (rev (RawEntries reply)))"
  by (simp add: Entries_def foldl_assign_lookup split: option.split)

text \<open>
  C4. The keys of the map \<open>Entries\<close> builds are exactly the interface IDs of the entries,
  so each of them is mapped to a \<open>HostInfo\<close>; and an entry that no later entry shares its
  interface ID with (the last entry of that ID, whatever comes before it) is the one
  whose \<open>HostInfo\<close> the map holds: the last write wins.
\<close>

theorem Entries_last_write_wins:
  "dom (Entries reply) = IfID ` set (RawEntries reply) \<and>
   (\<forall>xs e ys. RawEntries reply = xs @ e # ys \<and> (\<forall>e' \<in> set ys. IfID e' \<noteq> IfID e)
        \<longrightarrow> Entries reply (IfID e) = Some (HostInfo e))"
proof (intro conjI allI impI)
  show "dom (Entries reply) = IfID ` set (RawEntries reply)"
  proof (rule set_eqI)
    fix k
    show "k \<in> dom (Entries reply) \<longleftrightarrow> k \<in> IfID ` set (RawEntries reply)"
      by (auto simp: Entries_lookup dom_def find_None_iff image_iff)
  qed
next
  fix xs e ys
  assume a: "RawEntries reply = xs @ e # ys \<and> (\<forall>e' \<in> set ys. IfID e' \<noteq> IfID e)"
  then have "find (\<lambda>x. IfID x = IfID e) (rev ys) = None"
    by (simp add: find_None_iff)
  then have "find (\<lambda>x. IfID x = IfID e) (rev (xs @ e # ys)) = Some e"
    by (simp add: find_append_cases)
  then show "Entries reply (IfID e) = Some (HostInfo e)"
    using a by (simp add: Entries_lookup)
qed

theorem Entries_last_write_wins_witness:
  "Entries \<lparr>RawEntries =
      [\<lparr>IfID = 7, HostInfo = \<lparr>Port = 1, Addrs = \<lparr>Ipv4 = [10, 0, 0, 1], Ipv6 = []\<rparr>\<rparr>\<rparr>,
       \<lparr>IfID = 7, HostInfo = \<lparr>Port = 2, Addrs = \<lparr>Ipv4 = [10, 0, 0, 2], Ipv6 = []\<rparr>\<rparr>\<rparr>]\<rparr> 7
     = Some \<lparr>Port = 2, Addrs = \<lparr>Ipv4 = [10, 0, 0, 2], Ipv6 = []\<rparr>\<rparr>"
proof -
  let ?e1 = "\<lparr>IfID = 7, HostInfo = \<lparr>Port = 1, Addrs = \<lparr>Ipv4 = [10, 0, 0, 1], Ipv6 = []\<rparr>\<rparr>\<rparr>"
  let ?e2 = "\<lparr>IfID = 7, HostInfo = \<lparr>Port = 2, Addrs = \<lparr>Ipv4 = [10, 0, 0, 2], Ipv6 = []\<rparr>\<rparr>\<rparr>"
  have "RawEntries \<lparr>RawEntries = [?e1, ?e2]\<rparr> = [?e1] @ ?e2 # [] \<and>
        (\<forall>e' \<in> set []. IfID e' \<noteq> IfID ?e2)"
    by simp
  with Entries_last_write_wins [of "\<lparr>RawEntries = [?e1, ?e2]\<rparr>"]
  have "Entries \<lparr>RawEntries = [?e1, ?e2]\<rparr> (IfID ?e2) = Some (HostInfo ?e2)"
    by blast
  then show ?thesis by simp
qed

section \<open>Renderings of the enumerations\<close>

lemmas enum_defs =
  ErrorOk_def ErrorNoPaths_def ErrorPSTimeout_def ErrorInternal_def
  RevValid_def RevStale_def RevInvalid_def RevUnknown_def
  SvcBS_def SvcPS_def SvcCS_def SvcBR_def SvcSB_def

lemma word16_gt_3: "3 < (c :: 16 word) \<Longrightarrow> c \<noteq> 0 \<and> c \<noteq> 1 \<and> c \<noteq> 2 \<and> c \<noteq> 3"
  by auto

lemma word16_gt_4:
  "4 < (c :: 16 word) \<Longrightarrow> c \<noteq> 0 \<and> c \<noteq> 1 \<and> c \<noteq> 2 \<and> c \<noteq> 3 \<and> c \<noteq> 4"
  by auto

text \<open>
  C8, as the code has it. Every 16-bit number is a value of the three types, and
  \<open>String\<close> is total on them. A \<open>PathErrorCode\<close> above 3 renders as
  \<open>Unknown error (N)\<close> and a \<open>RevResult\<close> above 3 as \<open>Unknown revocation result (N)\<close>,
  with \<open>N\<close> the number in decimal; a \<open>ServiceType\<close> above 4 renders as the fixed string
  \<open>??\<close>, which does not carry the number. The known values render with their fixed
  descriptions.
\<close>

theorem enum_String_renderings:
  "(3 < c \<longrightarrow> PathErrorCode_String c = ''Unknown error ('' @ fmt_d (unat c) @ '')'') \<and>
   (3 < r \<longrightarrow> RevResult_String r = ''Unknown revocation result ('' @ fmt_d (unat r) @ '')'') \<and>
   (4 < st \<longrightarrow> ServiceType_String st = ''??'') \<and>
   PathErrorCode_String ErrorOk = ''OK'' \<and>
   PathErrorCode_String ErrorNoPaths = ''No paths available'' \<and>
   PathErrorCode_String ErrorPSTimeout = ''SCIOND timed out while requesting paths'' \<and>
   PathErrorCode_String ErrorInternal = ''SCIOND experienced an internal error'' \<and>
   RevResult_String RevValid = ''RevValid'' \<and>
   RevResult_String RevStale = ''RevStale'' \<and>
   RevResult_String RevInvalid = ''RevInvalid'' \<and>
   RevResult_String RevUnknown = ''RevUnknown'' \<and>
   ServiceType_String SvcBS = ''BS'' \<and>
   ServiceType_String SvcPS = ''PS'' \<and>
   ServiceType_String SvcCS = ''CS'' \<and>
   ServiceType_String SvcBR = ''BR'' \<and>
   ServiceType_String SvcSB = ''SB''"
proof -
  have a: "3 < c \<longrightarrow> PathErrorCode_String c = ''Unknown error ('' @ fmt_d (unat c) @ '')''"
    using word16_gt_3 [of c] by (simp add: PathErrorCode_String_def enum_defs)
  have b: "3 < r \<longrightarrow>
      RevResult_String r = ''Unknown revocation result ('' @ fmt_d (unat r) @ '')''"
    using word16_gt_3 [of r] by (simp add: RevResult_String_def enum_defs)
  have c: "4 < st \<longrightarrow> ServiceType_String st = ''??''"
    using word16_gt_4 [of st] by (simp add: ServiceType_String_def enum_defs)
  have k1: "PathErrorCode_String ErrorOk = ''OK'' \<and>
   PathErrorCode_String ErrorNoPaths = ''No paths available'' \<and>
   PathErrorCode_String ErrorPSTimeout = ''SCIOND timed out while requesting paths'' \<and>
   PathErrorCode_String ErrorInternal = ''SCIOND experienced an internal error''"
    by (simp add: PathErrorCode_String_def enum_defs)
  have k2: "RevResult_String RevValid = ''RevValid'' \<and>
   RevResult_String RevStale = ''RevStale'' \<and>
   RevResult_String RevInvalid = ''RevInvalid'' \<and>
   RevResult_String RevUnknown = ''RevUnknown''"
    by (simp add: RevResult_String_def enum_defs)
  have k3: "ServiceType_String SvcBS = ''BS'' \<and>
   ServiceType_String SvcPS = ''PS'' \<and>
   ServiceType_String SvcCS = ''CS'' \<and>
   ServiceType_String SvcBR = ''BR'' \<and>
   ServiceType_String SvcSB = ''SB''"
    by (simp add: ServiceType_String_def enum_defs)
  show ?thesis using a b c k1 k2 k3 by (intro conjI) simp_all
qed

theorem enum_String_renderings_witness:
  "PathErrorCode_String 7 = ''Unknown error (7)'' \<and>
   RevResult_String 65535 = ''Unknown revocation result (65535)'' \<and>
   ServiceType_String 9 = ''??''"
proof -
  have "fmt_d (unat (7 :: 16 word)) = ''7''" "fmt_d (unat (65535 :: 16 word)) = ''65535''"
    by (simp_all add: fmt_d.simps)
  then show ?thesis
    using enum_String_renderings [of 7 65535 9] by simp
qed

theorem ServiceType_String_fallback_counterexample:
  "ServiceType_String 5 = ''??'' \<and> ServiceType_String 6 = ''??'' \<and>
   \<not> sublist (fmt_d (unat (5 :: ServiceType))) (ServiceType_String 5)"
proof -
  have s: "ServiceType_String 5 = ''??''" "ServiceType_String 6 = ''??''"
    by (simp_all add: ServiceType_String_def enum_defs)
  have u: "unat (5 :: ServiceType) = 5"
    by simp
  have f: "fmt_d 5 = ''5''"
    by (simp add: fmt_d.simps)
  have "\<not> sublist ''5'' ''??''"
    by (simp add: sublist_Cons_right prefix_Cons)
  then show ?thesis by (simp only: s u f) simp
qed

section \<open>The signed envelope\<close>

text \<open>
  C5. When the scheme tag of a \<open>SignS\<close> is neither \<open>none\<close> nor \<open>ed25519\<close>, \<open>Sign\<close> and
  \<open>Verify\<close> both return the unsupported-type error, whatever the key and the message,
  and leave the receiver as it was, field for field.
\<close>

theorem Sign_Verify_unsupported:
  assumes "Type s \<noteq> SignType_none" and "Type s \<noteq> SignType_ed25519"
  shows "SignS_Sign csign s key message =
           (([], Some (BasicError ''SignS.Sign: Unsupported SignType'' (Type s))), s) \<and>
         SignS_Verify cverify s key message =
           (Some (BasicError ''SignS.Verify: Unsupported SignType'' (Type s)), s)"
  using assms by (cases "Type s") (simp_all add: SignS_Sign_def SignS_Verify_def)

theorem Sign_Verify_unsupported_witness:
  "SignS_Sign (\<lambda>message key algo. (message @ key, None))
      \<lparr>Timestamp = 5, Type = SignType_unknown 2, Src = [1], Signature = [2]\<rparr> [3] [4]
     = (([], Some (BasicError ''SignS.Sign: Unsupported SignType'' (SignType_unknown 2))),
        \<lparr>Timestamp = 5, Type = SignType_unknown 2, Src = [1], Signature = [2]\<rparr>) \<and>
   SignS_Verify (\<lambda>message sig key algo. None)
      \<lparr>Timestamp = 5, Type = SignType_unknown 2, Src = [1], Signature = [2]\<rparr> [3] [4]
     = (Some (BasicError ''SignS.Verify: Unsupported SignType'' (SignType_unknown 2)),
        \<lparr>Timestamp = 5, Type = SignType_unknown 2, Src = [1], Signature = [2]\<rparr>)"
  using Sign_Verify_unsupported
    [of "\<lparr>Timestamp = 5, Type = SignType_unknown 2, Src = [1], Signature = [2]\<rparr>"
        "\<lambda>message key algo. (message @ key, None)" "[3]" "[4]"
        "\<lambda>message sig key algo. None"]
  by simp

text \<open>
  C6. When the scheme tag is \<open>none\<close>, \<open>Sign\<close> succeeds with the empty signature and
  \<open>Verify\<close> succeeds, whatever the key, the message and the signature bytes held.
\<close>

theorem Sign_Verify_none:
  assumes "Type s = SignType_none"
  shows "SignS_Sign csign s key message = (([], None), s) \<and>
         SignS_Verify cverify s key message = (None, s)"
  using assms by (simp add: SignS_Sign_def SignS_Verify_def)

theorem Sign_Verify_none_witness:
  "SignS_Sign (\<lambda>message key algo. (message @ key, None))
      \<lparr>Timestamp = 5, Type = SignType_none, Src = [1], Signature = [2]\<rparr> [3] [4]
     = (([], None), \<lparr>Timestamp = 5, Type = SignType_none, Src = [1], Signature = [2]\<rparr>) \<and>
   SignS_Verify (\<lambda>message sig key algo. Some (CryptoError ''invalid signature''))
      \<lparr>Timestamp = 5, Type = SignType_none, Src = [1], Signature = [2]\<rparr> [3] [4]
     = (None, \<lparr>Timestamp = 5, Type = SignType_none, Src = [1], Signature = [2]\<rparr>)"
  using Sign_Verify_none
    [of "\<lparr>Timestamp = 5, Type = SignType_none, Src = [1], Signature = [2]\<rparr>"
        "\<lambda>message key algo. (message @ key, None)" "[3]" "[4]"
        "\<lambda>message sig key algo. Some (CryptoError ''invalid signature'')"]
  by simp

lemma Sign_ignores_Timestamp:
  "fst (SignS_Sign csign (s\<lparr>Timestamp := t\<rparr>) key message)
     = fst (SignS_Sign csign s key message)"
  by (cases "Type s") (simp_all add: SignS_Sign_def)

lemma Sign_keeps_receiver: "snd (SignS_Sign csign s key message) = s"
  by (cases "Type s") (simp_all add: SignS_Sign_def)

text \<open>
  C9. \<open>SignAndSet\<close> leaves the receiver with the timestamp set to the current time,
  whether or not signing fails; it returns an error exactly when \<open>Sign\<close> does; and when
  it succeeds the signature field holds what \<open>Sign\<close> returned. The scheme tag and the
  source descriptor are kept.
\<close>

theorem SignAndSet_contract:
  "Timestamp (snd (SignS_SignAndSet csign now s key message)) = now \<and>
   (fst (SignS_SignAndSet csign now s key message) \<noteq> None
      \<longleftrightarrow> snd (fst (SignS_Sign csign s key message)) \<noteq> None) \<and>
   (fst (SignS_SignAndSet csign now s key message) = None
      \<longrightarrow> Signature (snd (SignS_SignAndSet csign now s key message))
            = fst (fst (SignS_Sign csign s key message))) \<and>
   Type (snd (SignS_SignAndSet csign now s key message)) = Type s \<and>
   Src (snd (SignS_SignAndSet csign now s key message)) = Src s"
proof -
  obtain res s2 where r: "SignS_Sign csign (s\<lparr>Timestamp := now\<rparr>) key message = (res, s2)"
    by (cases "SignS_Sign csign (s\<lparr>Timestamp := now\<rparr>) key message")
  have s2: "s2 = s\<lparr>Timestamp := now\<rparr>"
    using Sign_keeps_receiver [of csign "s\<lparr>Timestamp := now\<rparr>" key message] r by simp
  have res: "res = fst (SignS_Sign csign s key message)"
    using Sign_ignores_Timestamp [of csign now s key message] r by simp
  have "SignS_SignAndSet csign now s key message = (snd res, s2\<lparr>Signature := fst res\<rparr>)"
    by (simp add: SignS_SignAndSet_def r)
  then show ?thesis by (simp add: s2 res)
qed

theorem SignAndSet_contract_witness:
  "fst (SignS_SignAndSet (\<lambda>message key algo. (message @ key, None)) 1700000000
      \<lparr>Timestamp = 5, Type = SignType_ed25519, Src = [1], Signature = [2]\<rparr> [3] [4]) = None \<and>
   Timestamp (snd (SignS_SignAndSet (\<lambda>message key algo. (message @ key, None)) 1700000000
      \<lparr>Timestamp = 5, Type = SignType_ed25519, Src = [1], Signature = [2]\<rparr> [3] [4]))
     = 1700000000 \<and>
   Signature (snd (SignS_SignAndSet (\<lambda>message key algo. (message @ key, None)) 1700000000
      \<lparr>Timestamp = 5, Type = SignType_ed25519, Src = [1], Signature = [2]\<rparr> [3] [4]))
     = [4, 3] \<and>
   fst (SignS_SignAndSet (\<lambda>message key algo. (message @ key, None)) 1700000000
      \<lparr>Timestamp = 5, Type = SignType_unknown 2, Src = [1], Signature = [2]\<rparr> [3] [4]) \<noteq> None \<and>
   Timestamp (snd (SignS_SignAndSet (\<lambda>message key algo. (message @ key, None)) 1700000000
      \<lparr>Timestamp = 5, Type = SignType_unknown 2, Src = [1], Signature = [2]\<rparr> [3] [4]))
     = 1700000000"
proof -
  let ?cs = "\<lambda>(message :: byte list) (key :: byte list) (algo :: crypto_algo).
     (message @ key, None :: error option)"
  let ?ok = "\<lparr>Timestamp = 5, Type = SignType_ed25519, Src = [1], Signature = [2]\<rparr>"
  let ?bad = "\<lparr>Timestamp = 5, Type = SignType_unknown 2, Src = [1], Signature = [2]\<rparr>"
  have ok: "SignS_Sign ?cs ?ok [3] [4] = (([4, 3], None), ?ok)"
    by (simp add: SignS_Sign_def)
  have bad: "snd (fst (SignS_Sign ?cs ?bad [3] [4])) \<noteq> None"
    by (simp add: SignS_Sign_def)
  show ?thesis
    using SignAndSet_contract [of ?cs 1700000000 ?ok "[3]" "[4]"]
      SignAndSet_contract [of ?cs 1700000000 ?bad "[3]" "[4]"] ok bad
    by simp
qed

section \<open>Packing\<close>

lemma unat_drop_bit_div: "unat (drop_bit k (v :: 64 word)) = unat v div 2 ^ k"
proof -
  have "unat (drop_bit k v) = drop_bit k (unat v)" by (rule unat_drop_bit_eq)
  also have "\<dots> = unat v div 2 ^ k" by (rule drop_bit_eq_div)
  finally show ?thesis .
qed

lemma ucast_byte_digit: "(ucast (w :: 64 word) :: byte) = of_nat (unat w mod 256)"
  by (simp add: word_unat_eq_iff unsigned_ucast_eq unat_of_nat take_bit_eq_mod)

lemma PutUint64_big_endian:
  "PutUint64 (replicate 8 0) v = Inr (big_endian_64 v)"
proof -
  have upt8: "[0 ..< 8] = [0, 1, 2, 3, 4, 5, 6, 7 :: nat]"
    by (simp add: upt_rec)
  have rep8: "replicate 8 (0 :: byte) = [0, 0, 0, 0, 0, 0, 0, 0]"
    by (simp add: numeral_eq_Suc)
  show ?thesis
    unfolding PutUint64_def big_endian_64_def upt8 rep8
    by (simp add: ucast_byte_digit unat_drop_bit_div)
qed

lemma horner_step:
  "256 * (n div 256 ^ Suc j) + n div 256 ^ j mod 256 = (n div 256 ^ j :: nat)"
proof -
  have "n div 256 ^ Suc j = n div (256 ^ j * 256)"
    by (simp add: mult.commute)
  also have "\<dots> = n div 256 ^ j div 256"
    by (rule div_mult2_eq)
  finally have "n div 256 ^ Suc j = n div 256 ^ j div 256" .
  then show ?thesis by simp
qed

lemma be_value_big_endian: "be_value (big_endian_64 v) = unat v"
proof -
  have upt8: "[0 ..< 8] = [0, 1, 2, 3, 4, 5, 6, 7 :: nat]"
    by (simp add: upt_rec)
  define n where "n = unat v"
  have "n < 2 ^ 64" using unsigned_less [of v, where ?'a = nat] by (simp add: n_def)
  then have "n div 256 ^ 7 < 256"
    by (simp add: less_mult_imp_div_less)
  then have h7: "n div 256 ^ 7 mod 256 = n div 256 ^ 7" by simp
  have h6: "256 * (n div 256 ^ 7) + n div 256 ^ 6 mod 256 = n div 256 ^ 6"
    using horner_step [of n 6] by simp
  have h5: "256 * (n div 256 ^ 6) + n div 256 ^ 5 mod 256 = n div 256 ^ 5"
    using horner_step [of n 5] by simp
  have h4: "256 * (n div 256 ^ 5) + n div 256 ^ 4 mod 256 = n div 256 ^ 4"
    using horner_step [of n 4] by simp
  have h3: "256 * (n div 256 ^ 4) + n div 256 ^ 3 mod 256 = n div 256 ^ 3"
    using horner_step [of n 3] by simp
  have h2: "256 * (n div 256 ^ 3) + n div 256 ^ 2 mod 256 = n div 256 ^ 2"
    using horner_step [of n 2] by simp
  have h1: "256 * (n div 256 ^ 2) + n div 256 ^ 1 mod 256 = n div 256 ^ 1"
    using horner_step [of n 1] by simp
  have h0: "256 * (n div 256 ^ 1) + n div 256 ^ 0 mod 256 = n"
    using horner_step [of n 0] by simp
  have d: "unat (of_nat (m mod 256) :: byte) = m mod 256" for m
    by (subst unat_of_nat) simp
  have "be_value (big_endian_64 v) =
      256 * (256 * (256 * (256 * (256 * (256 * (256 * (n div 256 ^ 7 mod 256)
        + n div 256 ^ 6 mod 256) + n div 256 ^ 5 mod 256) + n div 256 ^ 4 mod 256)
        + n div 256 ^ 3 mod 256) + n div 256 ^ 2 mod 256) + n div 256 ^ 1 mod 256)
        + n div 256 ^ 0 mod 256"
    unfolding be_value_def big_endian_64_def upt8 n_def [symmetric]
    by (simp only: list.map foldl.simps d diff_zero) simp
  also have "\<dots> = n"
    by (simp only: h7 h6 h5 h4 h3 h2 h1 h0)
  finally show ?thesis by (simp add: n_def)
qed

text \<open>
  C7. \<open>SignS.Pack\<close> returns, without a panic, the 8-byte big-endian encoding of the
  timestamp (eight bytes that read big-endian give the timestamp back), then the bytes
  of the string form of the scheme tag, then the source descriptor, then the signature.
  \<open>SignedBlobS.Pack\<close> on a blob with a contained \<open>SignS\<close> returns the bytes of the blob
  followed by that output.
\<close>

theorem Pack_layout:
  "SignS_Pack tstring s =
     Inr (big_endian_64 (Timestamp s) @ bytes_of_string (tstring (Type s))
          @ Src s @ Signature s) \<and>
   length (big_endian_64 (Timestamp s)) = 8 \<and>
   be_value (big_endian_64 (Timestamp s)) = unat (Timestamp s) \<and>
   (\<forall>sbs. Sign sbs = Some s \<longrightarrow>
      SignedBlobS_Pack tstring sbs =
        Inr (bytes (Blob sbs) @ big_endian_64 (Timestamp s)
             @ bytes_of_string (tstring (Type s)) @ Src s @ Signature s))"
proof -
  have p: "SignS_Pack tstring s =
     Inr (big_endian_64 (Timestamp s) @ bytes_of_string (tstring (Type s))
          @ Src s @ Signature s)"
    by (simp add: SignS_Pack_def PutUint64_big_endian)
  have l: "length (big_endian_64 (Timestamp s)) = 8"
    by (simp add: big_endian_64_def)
  have b: "SignedBlobS_Pack tstring sbs =
        Inr (bytes (Blob sbs) @ big_endian_64 (Timestamp s)
             @ bytes_of_string (tstring (Type s)) @ Src s @ Signature s)"
    if "Sign sbs = Some s" for sbs
    using that by (simp add: SignedBlobS_Pack_def p)
  show ?thesis using p l b be_value_big_endian by blast
qed

theorem Pack_layout_witness:
  "SignedBlobS_Pack (case_SignType ''none'' ''ed25519'' (\<lambda>v. ''''))
      \<lparr>Blob = \<lparr>backing = [7, 8, 9], slen = 2\<rparr>,
       Sign = Some \<lparr>Timestamp = 258, Type = SignType_none, Src = [1], Signature = [2]\<rparr>\<rparr>
     = Inr [7, 8, 0, 0, 0, 0, 0, 0, 1, 2, 110, 111, 110, 101, 1, 2]"
proof -
  let ?s = "\<lparr>Timestamp = 258, Type = SignType_none, Src = [1], Signature = [2]\<rparr>"
  let ?sbs = "\<lparr>Blob = \<lparr>backing = [7, 8, 9], slen = 2\<rparr>, Sign = Some ?s\<rparr>"
  let ?t = "case_SignType ''none'' ''ed25519'' (\<lambda>v. '''')"
  have upt8: "[0 ..< 8] = [0, 1, 2, 3, 4, 5, 6, 7 :: nat]"
    by (simp add: upt_rec)
  have e: "big_endian_64 258 = [0, 0, 0, 0, 0, 0, 1, 2]"
    unfolding big_endian_64_def upt8 by simp
  have "Sign ?sbs = Some ?s" by simp
  with Pack_layout [of ?t ?s]
  have "SignedBlobS_Pack ?t ?sbs =
        Inr (bytes (Blob ?sbs) @ big_endian_64 (Timestamp ?s)
             @ bytes_of_string (?t (Type ?s)) @ Src ?s @ Signature ?s)"
    by blast
  then show ?thesis by (simp add: e bytes_def bytes_of_string_def)
qed

text \<open>
  C10, as the code has it. \<open>SignedBlobS.String\<close> is partial: it reslices the blob to its
  first 20 positions, which Go checks against the capacity of the slice. It panics
  exactly when the capacity of the blob is below 20, and otherwise renders the first 20
  bytes of the backing array; so it is defined for every blob of at least 20 bytes, and
  also for a shorter blob whose capacity reaches 20.
\<close>

theorem SignedBlobS_String_partial:
  "(cap (Blob sbs) < 20 \<longrightarrow>
      SignedBlobS_String fmt_blob fmt_sign sbs = Inl SliceBoundsOutOfRange) \<and>
   (20 \<le> cap (Blob sbs) \<longrightarrow>
      SignedBlobS_String fmt_blob fmt_sign sbs =
        Inr (''Blob: '' @ fmt_blob (take 20 (backing (Blob sbs))) @ '' Sign: ''
             @ fmt_sign (Sign sbs))) \<and>
   (wf_slice (Blob sbs) \<and> 20 \<le> slen (Blob sbs) \<longrightarrow>
      \<not> isl (SignedBlobS_String fmt_blob fmt_sign sbs))"
  by (auto simp: SignedBlobS_String_def reslice_def bytes_def wf_slice_def)

theorem SignedBlobS_String_partial_witness:
  "SignedBlobS_String (\<lambda>b. ''x'') (\<lambda>s. ''y'')
      \<lparr>Blob = \<lparr>backing = [1, 2, 3], slen = 3\<rparr>, Sign = None\<rparr>
     = Inl SliceBoundsOutOfRange \<and>
   \<not> isl (SignedBlobS_String (\<lambda>b. ''x'') (\<lambda>s. ''y'')
      \<lparr>Blob = \<lparr>backing = replicate 24 7, slen = 21\<rparr>, Sign = None\<rparr>)"
proof -
  let ?short = "\<lparr>Blob = \<lparr>backing = [1, 2, 3], slen = 3\<rparr>, Sign = None\<rparr>"
  let ?long = "\<lparr>Blob = \<lparr>backing = replicate 24 7, slen = 21\<rparr>, Sign = None\<rparr>"
  have a: "cap (Blob ?short) < 20" by (simp add: cap_def)
  have b: "wf_slice (Blob ?long) \<and> 20 \<le> slen (Blob ?long)"
    by (simp add: wf_slice_def cap_def)
  show ?thesis
    using SignedBlobS_String_partial [of ?short "\<lambda>b. ''x''" "\<lambda>s. ''y''"]
      SignedBlobS_String_partial [of ?long "\<lambda>b. ''x''" "\<lambda>s. ''y''"] a b
    by blast
qed

theorem SignedBlobS_String_short_blob_counterexample:
  "slen (Blob \<lparr>Blob = \<lparr>backing = replicate 20 65, slen = 3\<rparr>, Sign = None\<rparr>) < 20 \<and>
   SignedBlobS_String (map (char_of \<circ> unat))
      (case_option ''<nil>'' (fmt_d \<circ> unat \<circ> Timestamp))
      \<lparr>Blob = \<lparr>backing = replicate 20 65, slen = 3\<rparr>, Sign = None\<rparr>
     = Inr ''Blob: AAAAAAAAAAAAAAAAAAAA Sign: <nil>''"
  by code_simp

end
